theory Spec2Isabelle
  imports Complex_Main "HOL-Library.Word"
begin

section \<open>AMAT file extraction: path sanitizer and per-file extraction pipeline\<close>

text \<open>
  The development embeds \<^verbatim>\<open>_sanitize_path\<close> and \<^verbatim>\<open>_extract_file_production\<close>
  (with the helpers they call) of \<^verbatim>\<open>amat_data_collection.py\<close> and \<^verbatim>\<open>main.py\<close>.
  A Python \<^verbatim>\<open>str\<close> is a \<^typ>\<open>string\<close>: every \<^typ>\<open>char\<close> stands for one code point
  (so the model covers the paths whose code points are below 256), and \<^term>\<open>length\<close> is
  Python's \<^verbatim>\<open>len\<close>. Paths follow the POSIX conventions of \<^verbatim>\<open>os.path\<close> and
  \<^verbatim>\<open>pathlib\<close>. The sizes in MiB, floats in the code, are real numbers here: a size is
  zero exactly when the file has no bytes, and it is above the limit exactly when the
  number of bytes is, as for the floats. Writing a log entry never raises.
\<close>

subsection \<open>Configuration (class Config)\<close>

definition MAX_FILE_SIZE_MB :: nat where
  "MAX_FILE_SIZE_MB = 500"

definition MAX_PATH_LENGTH :: nat where
  "MAX_PATH_LENGTH = 200"

definition VERBOSE :: bool where
  "VERBOSE = True"

definition PULL_TIMEOUT :: nat where
  "PULL_TIMEOUT = 180"

subsection \<open>String primitives of Python used by the code\<close>

text \<open>\<^verbatim>\<open>s.split(sep)\<close> for a one-character separator: never an empty list.\<close>

fun split :: "char \<Rightarrow> string \<Rightarrow> string list" where
  "split sep [] = [[]]"
| "split sep (c # cs) =
     (if c = sep then [] # split sep cs
      else (case split sep cs of [] \<Rightarrow> [[c]] | p # ps \<Rightarrow> (c # p) # ps))"

text \<open>\<^verbatim>\<open>sep.join(parts)\<close>.\<close>

fun join :: "string \<Rightarrow> string list \<Rightarrow> string" where
  "join sep [] = []"
| "join sep [p] = p"
| "join sep (p # q # ps) = p @ sep @ join sep (q # ps)"

text \<open>\<^verbatim>\<open>s.replace(old, new)\<close> for one-character \<^verbatim>\<open>old\<close> and \<^verbatim>\<open>new\<close>.\<close>

definition replace :: "char \<Rightarrow> char \<Rightarrow> string \<Rightarrow> string" where
  "replace old new s = map (\<lambda>c. if c = old then new else c) s"

definition startswith :: "string \<Rightarrow> string \<Rightarrow> bool" where
  "startswith s pre = (take (length pre) s = pre)"

definition endswith :: "string \<Rightarrow> string \<Rightarrow> bool" where
  "endswith s suf = (length suf \<le> length s \<and> drop (length s - length suf) s = suf)"

subsection \<open>The digest of hashlib\<close>

text \<open>
  \<^verbatim>\<open>hashlib.md5\<close> is library code: the digest function is a parameter \<open>md5\<close> of the
  model, from the hashed string to the 128 bits of the digest. \<^verbatim>\<open>hexdigest()\<close> renders
  the digest as 32 lower-case hexadecimal digits, most significant first.
\<close>

type_synonym digest = "string \<Rightarrow> 128 word"

definition hex_digit :: "nat \<Rightarrow> char" where
  "hex_digit n = ''0123456789abcdef'' ! (n mod 16)"

definition hexdigest :: "128 word \<Rightarrow> string" where
  "hexdigest d = map (\<lambda>i. hex_digit (unat (drop_bit (4 * (31 - i)) d))) [0..<32]"

subsection \<open>The path sanitizer (\_sanitize\_path)\<close>

definition invalid_chars :: "char list" where
  "invalid_chars = [CHR '':'', CHR ''*'', CHR ''?'', CHR 0x22, CHR ''<'', CHR ''>'', CHR ''|'',
     CHR 0x0A, CHR 0x0D, CHR 0x09]"

text \<open>The body of the loop over the parts, for a part that is not empty.\<close>

definition sanitize_part :: "string \<Rightarrow> string" where
  "sanitize_part part =
     (let sanitized = foldl (\<lambda>s c. replace c CHR ''_'' s) part invalid_chars;
          sanitized = (if startswith sanitized ''.'' then CHR ''_'' # drop 1 sanitized
                       else sanitized);
          sanitized = (if length sanitized > 100 then take 100 sanitized else sanitized)
      in sanitized)"

text \<open>The value of \<^verbatim>\<open>result\<close> after the join, before the total length is limited.\<close>

definition sanitized_parts :: "string \<Rightarrow> string list" where
  "sanitized_parts path = map sanitize_part (filter (\<lambda>part. part \<noteq> []) (split CHR ''/'' path))"

definition joined_result :: "string \<Rightarrow> string" where
  "joined_result path = join ''/'' (sanitized_parts path)"

definition sanitize_path :: "digest \<Rightarrow> string \<Rightarrow> string" where
  "sanitize_path md5 path =
     (let result = joined_result path
      in if length result > MAX_PATH_LENGTH
         then (let hash_suffix = take 8 (hexdigest (md5 result))
               in take (MAX_PATH_LENGTH - 10) result @ ''_'' @ hash_suffix)
         else result)"

text \<open>\<^verbatim>\<open>os.path.basename\<close> (posixpath): what follows the last slash.\<close>

definition basename :: "string \<Rightarrow> string" where
  "basename p = rev (takeWhile (\<lambda>c. c \<noteq> CHR ''/'') (rev p))"

text \<open>\<^verbatim>\<open>s.lstrip('/')\<close>.\<close>

definition lstrip_slash :: "string \<Rightarrow> string" where
  "lstrip_slash s = dropWhile (\<lambda>c. c = CHR ''/'') s"

text \<open>
  \<^verbatim>\<open>s.strip()\<close>: the code points below 256 that Python counts as white space are
  9 to 13, 28 to 32, 133 and 160.
\<close>

definition is_space :: "char \<Rightarrow> bool" where
  "is_space c = (of_char c \<in> {9, 10, 11, 12, 13, 28, 29, 30, 31, 32, 133, 160 :: nat})"

definition strip :: "string \<Rightarrow> string" where
  "strip s = rev (dropWhile is_space (rev (dropWhile is_space s)))"

text \<open>
  \<^verbatim>\<open>int(s)\<close> in base 10: white space around, an optional sign, decimal digits with single
  underscores between them; \<open>None\<close> stands for the \<^verbatim>\<open>ValueError\<close>.
\<close>

definition is_digit :: "char \<Rightarrow> bool" where
  "is_digit c = (48 \<le> (of_char c :: nat) \<and> (of_char c :: nat) \<le> 57)"

fun valid_digits :: "string \<Rightarrow> bool" where
  "valid_digits [] = False"
| "valid_digits [c] = is_digit c"
| "valid_digits (c # d # cs) =
     (is_digit c \<and> (if d = CHR ''_'' then valid_digits cs else valid_digits (d # cs)))"

fun digits_value :: "nat \<Rightarrow> string \<Rightarrow> nat" where
  "digits_value acc [] = acc"
| "digits_value acc (c # cs) =
     (if c = CHR ''_'' then digits_value acc cs
      else digits_value (10 * acc + (of_char c - 48)) cs)"

definition py_int :: "string \<Rightarrow> int option" where
  "py_int s =
     (case strip s of
        [] \<Rightarrow> None
      | c # cs \<Rightarrow>
          if c = CHR ''-'' then (if valid_digits cs then Some (- int (digits_value 0 cs)) else None)
          else if c = CHR ''+'' then (if valid_digits cs then Some (int (digits_value 0 cs)) else None)
          else (if valid_digits (c # cs) then Some (int (digits_value 0 (c # cs))) else None))"

text \<open>\<^verbatim>\<open>str(n)\<close> for a counter that is never negative.\<close>

fun str_nat :: "nat \<Rightarrow> string" where
  "str_nat n =
     (if n < 10 then [char_of (48 + n)]
      else str_nat (n div 10) @ [char_of (48 + n mod 10)])"

declare str_nat.simps [simp del]

text \<open>A shell argument between single quotes, as the f-strings of the code write it.\<close>

definition quoted :: "string \<Rightarrow> string" where
  "quoted s = [CHR 0x27] @ s @ [CHR 0x27]"

text \<open>The number of bytes of the UTF-8 encoding of a string of code points below 256.\<close>

definition utf8_length :: "string \<Rightarrow> nat" where
  "utf8_length s = sum_list (map (\<lambda>c. if (of_char c :: nat) < 128 then 1 else 2) s)"

subsection \<open>Data structures\<close>

record AcquisitionStats =
  volatile_mb :: real
  app_data_mb :: real
  media_mb :: real
  documents_mb :: real
  downloads_mb :: real
  system_mb :: real
  total_mb :: real
  processes_scanned :: nat
  memory_maps_acquired :: nat
  apps_processed :: nat
  databases_acquired :: nat
  photos_acquired :: nat
  videos_acquired :: nat
  audio_acquired :: nat
  documents_acquired :: nat
  total_files :: nat
  failed_files :: nat
  path_errors :: nat
  extraction_errors :: nat

text \<open>The defaults of the dataclass.\<close>

definition initial_stats :: AcquisitionStats where
  "initial_stats = \<lparr>volatile_mb = 0, app_data_mb = 0, media_mb = 0, documents_mb = 0,
     downloads_mb = 0, system_mb = 0, total_mb = 0, processes_scanned = 0,
     memory_maps_acquired = 0, apps_processed = 0, databases_acquired = 0, photos_acquired = 0,
     videos_acquired = 0, audio_acquired = 0, documents_acquired = 0, total_files = 0,
     failed_files = 0, path_errors = 0, extraction_errors = 0\<rparr>"

text \<open>
  The exceptions that the handlers of the code tell apart: \<^verbatim>\<open>OSError\<close> (caught around
  \<^verbatim>\<open>mkdir\<close>) and any other \<^verbatim>\<open>Exception\<close>, of which \<^verbatim>\<open>ValueError\<close> is the one
  the path operations raise.
\<close>

datatype exn = OSError | ValueError

text \<open>
  What the workstation's file system holds at a path: nothing, a file of some number of
  bytes, or something that makes \<^verbatim>\<open>exists()\<close> and \<^verbatim>\<open>stat()\<close> raise (a path that is
  too long, a parent that cannot be searched, an embedded null byte).
\<close>

datatype entry = Missing | File nat | Faulty exn

text \<open>
  What \<^verbatim>\<open>subprocess.run\<close> does with an adb command: it completes with captured output
  and a return code, it times out, or it raises another exception (with its message).
\<close>

datatype adb_outcome = Completed string int | TimeoutExpired | RunFailed string

text \<open>
  The messages of \<^verbatim>\<open>self.log\<close> (here \<open>write_log\<close>) that the modelled code writes, with the values that
  the f-string formats; an entry of the log is a level and a message (the time stamp
  and the printing are left out).
\<close>

datatype log_message =
    ADB_timeout "string list"
  | Skipped_large_file real string
  | Extraction_error string exn

type_synonym log_entry = "string \<times> log_message"

text \<open>
  The two files hold the same pipeline; \<^verbatim>\<open>amat_data_collection.py\<close> logs in three
  places where \<^verbatim>\<open>main.py\<close> does not.
\<close>

datatype source_file = Amat_data_collection | Main_py

text \<open>
  The acquisition object (\<^verbatim>\<open>self\<close>) together with what it acts on: the files of the
  workstation and the list of the adb commands run so far (each without the leading
  \<^verbatim>\<open>adb -s device\<close>).
\<close>

record session =
  stats :: AcquisitionStats
  extracted_files :: "string set"
  has_root :: bool
  temp_counter :: nat
  log_entries :: "log_entry list"
  disk :: "string \<Rightarrow> entry"
  issued :: "string list list"

text \<open>
  The object after \<^verbatim>\<open>__init__\<close> and \<^verbatim>\<open>check_root_access\<close> (which sets
  \<^verbatim>\<open>has_root\<close>), on given local files and before any adb command of the pipeline.
\<close>

definition new_session :: "bool \<Rightarrow> (string \<Rightarrow> entry) \<Rightarrow> session" where
  "new_session root_access files =
     \<lparr>stats = initial_stats, extracted_files = {}, has_root = root_access, temp_counter = 0,
      log_entries = [], disk = files, issued = []\<rparr>"

text \<open>
  The surroundings that the code cannot control: the digest function, the outcome of
  every adb command (which may depend on the commands run before it and on the
  timeout), what an \<^verbatim>\<open>adb pull\<close> leaves at its destination (\<open>None\<close>: the destination
  is not touched), and the local operations that raise.
\<close>

record world =
  md5 :: digest
  adb_run :: "string list list \<Rightarrow> string list \<Rightarrow> nat \<Rightarrow> adb_outcome"
  pull_leaves :: "string list list \<Rightarrow> string list \<Rightarrow> entry option"
  mkdir_raises :: "string \<Rightarrow> exn option"
  write_raises :: "string \<Rightarrow> exn option"
  unlink_raises :: "string \<Rightarrow> exn option"

subsection \<open>Local paths (pathlib) and the local file system\<close>

text \<open>
  A \<^verbatim>\<open>Path\<close> is its string. \<^verbatim>\<open>base / rel\<close> for a relative \<open>rel\<close> without empty
  or dot components (what the sanitizer returns); an empty \<open>rel\<close> gives \<open>base\<close> back.
\<close>

definition path_join :: "string \<Rightarrow> string \<Rightarrow> string" where
  "path_join base rel = (if rel = [] then base else base @ ''/'' @ rel)"

text \<open>\<^verbatim>\<open>path.parent\<close>: the path without its last component.\<close>

definition parent :: "string \<Rightarrow> string" where
  "parent p =
     (if CHR ''/'' \<notin> set p then ''.''
      else (let d = rev (drop 1 (dropWhile (\<lambda>c. c \<noteq> CHR ''/'') (rev p)))
            in if d = [] then ''/'' else d))"

definition path_exists :: "(string \<Rightarrow> entry) \<Rightarrow> string \<Rightarrow> exn + bool" where
  "path_exists d p = (case d p of Missing \<Rightarrow> Inr False | File n \<Rightarrow> Inr True | Faulty e \<Rightarrow> Inl e)"

text \<open>\<^verbatim>\<open>path.stat().st_size\<close>; a missing file raises \<^verbatim>\<open>FileNotFoundError\<close>, an \<^verbatim>\<open>OSError\<close>.\<close>

definition st_size :: "(string \<Rightarrow> entry) \<Rightarrow> string \<Rightarrow> exn + nat" where
  "st_size d p = (case d p of Missing \<Rightarrow> Inl OSError | File n \<Rightarrow> Inr n | Faulty e \<Rightarrow> Inl e)"

text \<open>The test \<^verbatim>\<open>local_file.exists() and local_file.stat().st_size > 0\<close>.\<close>

definition exists_nonempty :: "(string \<Rightarrow> entry) \<Rightarrow> string \<Rightarrow> exn + bool" where
  "exists_nonempty d p =
     (case path_exists d p of
        Inl e \<Rightarrow> Inl e
      | Inr False \<Rightarrow> Inr False
      | Inr True \<Rightarrow> (case st_size d p of Inl e \<Rightarrow> Inl e | Inr n \<Rightarrow> Inr (n > 0)))"

text \<open>\<^verbatim>\<open>path.unlink()\<close>.\<close>

definition unlink :: "world \<Rightarrow> session \<Rightarrow> string \<Rightarrow> exn + session" where
  "unlink w s p =
     (case disk s p of
        Missing \<Rightarrow> Inl OSError
      | _ \<Rightarrow> (case unlink_raises w p of
                Some e \<Rightarrow> Inl e
              | None \<Rightarrow> Inr (s\<lparr>disk := (disk s)(p := Missing)\<rparr>)))"

subsection \<open>Utility methods\<close>

definition write_log :: "session \<Rightarrow> log_message \<Rightarrow> string \<Rightarrow> session" where
  "write_log s message level = s\<lparr>log_entries := log_entries s @ [(level, message)]\<rparr>"

text \<open>What \<^verbatim>\<open>_adb\<close> returns for each outcome of \<^verbatim>\<open>subprocess.run\<close>.\<close>

definition adb_reply :: "world \<Rightarrow> string list list \<Rightarrow> string list \<Rightarrow> nat \<Rightarrow> string \<times> int" where
  "adb_reply w history cmd timeout =
     (case adb_run w history cmd timeout of
        Completed out code \<Rightarrow> (out, code)
      | TimeoutExpired \<Rightarrow> ([], - 1)
      | RunFailed msg \<Rightarrow> (''Error: '' @ msg, - 1))"

text \<open>The effect of the adb process on the local files: a pull writes its destination.\<close>

definition transfer_effect ::
  "world \<Rightarrow> string list list \<Rightarrow> string list \<Rightarrow> (string \<Rightarrow> entry) \<Rightarrow> (string \<Rightarrow> entry)" where
  "transfer_effect w history cmd d =
     (case cmd of
        [verb, src, dst] \<Rightarrow>
          if verb = ''pull''
          then (case pull_leaves w history cmd of None \<Rightarrow> d | Some e \<Rightarrow> d(dst := e))
          else d
      | _ \<Rightarrow> d)"

definition adb ::
  "source_file \<Rightarrow> world \<Rightarrow> session \<Rightarrow> string list \<Rightarrow> nat \<Rightarrow> (string \<times> int) \<times> session" where
  "adb f w s cmd timeout =
     (let s1 = s\<lparr>issued := issued s @ [cmd],
                 disk := transfer_effect w (issued s) cmd (disk s)\<rparr>;
          s2 = (case adb_run w (issued s) cmd timeout of
                  TimeoutExpired \<Rightarrow>
                    if f = Amat_data_collection then write_log s1 (ADB_timeout cmd) ''WARNING'' else s1
                | _ \<Rightarrow> s1)
      in (adb_reply w (issued s) cmd timeout, s2))"

definition shell ::
  "source_file \<Rightarrow> world \<Rightarrow> session \<Rightarrow> string \<Rightarrow> bool \<Rightarrow> nat \<Rightarrow> (string \<times> int) \<times> session" where
  "shell f w s cmd as_root timeout =
     (if as_root \<and> has_root s then adb f w s [''shell'', ''su'', ''-c'', cmd] timeout
      else adb f w s [''shell'', cmd] timeout)"

text \<open>The size in MiB, as a real number; any exception of \<^verbatim>\<open>stat\<close> gives 0.\<close>

definition get_file_size_mb :: "(string \<Rightarrow> entry) \<Rightarrow> string \<Rightarrow> real" where
  "get_file_size_mb d filepath =
     (case st_size d filepath of Inr n \<Rightarrow> real n / 1024 / 1024 | Inl e \<Rightarrow> 0)"

definition add_to_stats :: "AcquisitionStats \<Rightarrow> string \<Rightarrow> real \<Rightarrow> AcquisitionStats" where
  "add_to_stats st category size_mb =
     (let st1 =
        (if category = ''volatile'' then st\<lparr>volatile_mb := volatile_mb st + size_mb\<rparr>
         else if category = ''app_data'' then st\<lparr>app_data_mb := app_data_mb st + size_mb\<rparr>
         else if category = ''media'' then st\<lparr>media_mb := media_mb st + size_mb\<rparr>
         else if category = ''documents'' then st\<lparr>documents_mb := documents_mb st + size_mb\<rparr>
         else if category = ''downloads'' then st\<lparr>downloads_mb := downloads_mb st + size_mb\<rparr>
         else if category = ''system'' then st\<lparr>system_mb := system_mb st + size_mb\<rparr>
         else st)
      in st1\<lparr>total_mb := total_mb st1 + size_mb, total_files := total_files st1 + 1\<rparr>)"

subsection \<open>The extraction methods of \_extract\_file\_production\<close>

text \<open>``Create local path'': flat under the base directory, or with the sanitized structure.\<close>

definition local_path :: "digest \<Rightarrow> string \<Rightarrow> string \<Rightarrow> bool \<Rightarrow> string" where
  "local_path dg remote_path local_base_dir flatten =
     (let filename = basename remote_path;
          safe_filename = sanitize_path dg filename
      in if flatten then path_join local_base_dir safe_filename
         else (let rel_path = sanitize_path dg (lstrip_slash remote_path)
               in path_join local_base_dir rel_path))"

text \<open>
  ``Method 1: Direct pull (for accessible files)''. Each method returns the value of
  \<^verbatim>\<open>success\<close> after it, or the exception that leaves it.
\<close>

definition direct_pull ::
  "source_file \<Rightarrow> world \<Rightarrow> session \<Rightarrow> string \<Rightarrow> string \<Rightarrow> (exn + bool) \<times> session" where
  "direct_pull f w s remote_path local_file =
     (if \<not> startswith remote_path ''/data/data/'' \<and> \<not> startswith remote_path ''/data/user/''
      then (case adb f w s [''pull'', remote_path, local_file] PULL_TIMEOUT of
              ((stdout, code), s1) \<Rightarrow>
                if code = 0 then (exists_nonempty (disk s1) local_file, s1)
                else (Inr False, s1))
      else (Inr False, s))"

text \<open>``Method 2: Root copy to temp location''.\<close>

definition temp_path_of :: "world \<Rightarrow> nat \<Rightarrow> string \<Rightarrow> string" where
  "temp_path_of w counter filename =
     (let temp_name = ''amat_'' @ str_nat counter @ ''_'' @ take 8 (hexdigest (md5 w filename)) @ ''.tmp''
      in ''/sdcard/Download/'' @ temp_name)"

definition root_copy ::
  "source_file \<Rightarrow> world \<Rightarrow> session \<Rightarrow> string \<Rightarrow> string \<Rightarrow> string \<Rightarrow> bool \<Rightarrow>
   (exn + bool) \<times> session" where
  "root_copy f w s remote_path local_file filename success =
     (if \<not> success \<and> has_root s
      then (let s0 = s\<lparr>temp_counter := temp_counter s + 1\<rparr>;
                temp_path = temp_path_of w (temp_counter s0) filename;
                (r1, s1) = shell f w s0 (''cp '' @ quoted remote_path @ '' '' @ quoted temp_path) True 30;
                (r2, s2) = shell f w s1 (''chmod 644 '' @ quoted temp_path) True 5;
                (r3, s3) = adb f w s2 [''pull'', temp_path, local_file] PULL_TIMEOUT;
                (r4, s4) = shell f w s3 (''rm '' @ quoted temp_path) True 5
            in if snd r3 = 0 then (exists_nonempty (disk s4) local_file, s4)
               else (Inr False, s4))
      else (Inr success, s))"

text \<open>
  ``Method 3: Direct cat for small files''. The bare \<^verbatim>\<open>except: pass\<close> around the block
  swallows the \<^verbatim>\<open>ValueError\<close> of \<^verbatim>\<open>int\<close> and every exception of the write and of the
  \<^verbatim>\<open>stat\<close> after it, so no exception leaves this method.
\<close>

definition direct_cat ::
  "source_file \<Rightarrow> world \<Rightarrow> session \<Rightarrow> string \<Rightarrow> string \<Rightarrow> bool \<Rightarrow> bool \<times> session" where
  "direct_cat f w s remote_path local_file success =
     (if \<not> success
      then (case shell f w s (''stat -c %s '' @ quoted remote_path @ '' 2>/dev/null'') (has_root s) 30 of
              ((size_out, code0), s1) \<Rightarrow>
                (case py_int (strip size_out) of
                   None \<Rightarrow> (False, s1)
                 | Some file_size \<Rightarrow>
                     if file_size > 0 \<and> file_size < 5 * 1024 * 1024
                     then (case shell f w s1 (''cat '' @ quoted remote_path @ '' 2>/dev/null'')
                                  (has_root s1) 30 of
                             ((stdout, code), s2) \<Rightarrow>
                               if code = 0 \<and> stdout \<noteq> []
                               then (case write_raises w local_file of
                                       Some e \<Rightarrow> (False, s2)
                                     | None \<Rightarrow>
                                         (let s3 = s2\<lparr>disk := (disk s2)
                                                     (local_file := File (utf8_length stdout))\<rparr>
                                          in case st_size (disk s3) local_file of
                                               Inl e \<Rightarrow> (False, s3)
                                             | Inr n \<Rightarrow> (n > 0, s3)))
                               else (False, s2))
                     else (False, s1)))
      else (success, s))"

text \<open>The three methods in the order of the code.\<close>

definition strategy_chain ::
  "source_file \<Rightarrow> world \<Rightarrow> session \<Rightarrow> string \<Rightarrow> string \<Rightarrow> string \<Rightarrow> (exn + bool) \<times> session" where
  "strategy_chain f w s remote_path local_file filename =
     (case direct_pull f w s remote_path local_file of
        (Inl e, s1) \<Rightarrow> (Inl e, s1)
      | (Inr success1, s1) \<Rightarrow>
          (case root_copy f w s1 remote_path local_file filename success1 of
             (Inl e, s2) \<Rightarrow> (Inl e, s2)
           | (Inr success2, s2) \<Rightarrow>
               (case direct_cat f w s2 remote_path local_file success2 of
                  (success3, s3) \<Rightarrow> (Inr success3, s3))))"

text \<open>``Verify success'': the size checks, the statistics and the set of extracted paths.\<close>

definition is_database :: "string \<Rightarrow> bool" where
  "is_database remote_path =
     (endswith remote_path ''.db'' \<or> endswith remote_path ''.sqlite'' \<or>
      endswith remote_path ''.db-wal'' \<or> endswith remote_path ''.db-shm'')"

text \<open>The two counters that the body increments outside the handler.\<close>

definition count_failed :: "session \<Rightarrow> session" where
  "count_failed s = s\<lparr>stats := (stats s)\<lparr>failed_files := failed_files (stats s) + 1\<rparr>\<rparr>"

definition count_path_error :: "session \<Rightarrow> session" where
  "count_path_error s = s\<lparr>stats := (stats s)\<lparr>path_errors := path_errors (stats s) + 1\<rparr>\<rparr>"

definition verify_success ::
  "source_file \<Rightarrow> world \<Rightarrow> session \<Rightarrow> string \<Rightarrow> string \<Rightarrow> string \<Rightarrow> string \<Rightarrow> bool \<Rightarrow>
   (exn + bool) \<times> session" where
  "verify_success f w s remote_path local_file category filename success =
     (if success
      then (case path_exists (disk s) local_file of
              Inl e \<Rightarrow> (Inl e, s)
            | Inr False \<Rightarrow> (Inr False, count_failed s)
            | Inr True \<Rightarrow>
                (let size_mb = get_file_size_mb (disk s) local_file
                 in if size_mb = 0
                    then (case unlink w s local_file of
                            Inl e \<Rightarrow> (Inl e, s)
                          | Inr s1 \<Rightarrow> (Inr False, s1))
                    else if MAX_FILE_SIZE_MB > 0 \<and> size_mb > real MAX_FILE_SIZE_MB
                    then (case unlink w s local_file of
                            Inl e \<Rightarrow> (Inl e, s)
                          | Inr s1 \<Rightarrow>
                              (Inr False,
                               if f = Amat_data_collection
                               then write_log s1 (Skipped_large_file size_mb filename) ''DEBUG''
                               else s1))
                    else (let s1 = s\<lparr>stats := add_to_stats (stats s) category size_mb\<rparr>;
                              s2 = s1\<lparr>extracted_files := insert remote_path (extracted_files s1)\<rparr>;
                              s3 = (if is_database remote_path
                                    then s2\<lparr>stats := (stats s2)\<lparr>databases_acquired :=
                                           databases_acquired (stats s2) + 1\<rparr>\<rparr>
                                    else s2)
                          in (Inr True, s3))))
      else (Inr False, count_failed s))"

text \<open>What follows the creation of the directories: the methods, then the verification.\<close>

definition pull_and_verify ::
  "source_file \<Rightarrow> world \<Rightarrow> session \<Rightarrow> string \<Rightarrow> string \<Rightarrow> string \<Rightarrow> string \<Rightarrow>
   (exn + bool) \<times> session" where
  "pull_and_verify f w s remote_path local_file category filename =
     (case strategy_chain f w s remote_path local_file filename of
        (Inl e, s1) \<Rightarrow> (Inl e, s1)
      | (Inr success, s1) \<Rightarrow>
          verify_success f w s1 remote_path local_file category filename success)"

text \<open>
  The handler \<^verbatim>\<open>except Exception\<close> of the whole body. Only
  \<^verbatim>\<open>amat_data_collection.py\<close> logs there, and only while the counter is below 10.
\<close>

definition on_exception :: "source_file \<Rightarrow> session \<Rightarrow> string \<Rightarrow> exn \<Rightarrow> bool \<times> session" where
  "on_exception f s filename e =
     (let s1 = s\<lparr>stats := (stats s)\<lparr>extraction_errors := extraction_errors (stats s) + 1\<rparr>\<rparr>
      in (False,
          if f = Amat_data_collection \<and> VERBOSE \<and> extraction_errors (stats s1) < 10
          then write_log s1 (Extraction_error filename e) ''DEBUG''
          else s1))"

subsection \<open>\_extract\_file\_production\<close>

text \<open>
  \<open>try_body\<close> is the body of the \<^verbatim>\<open>try\<close>, with the exception that leaves it as a
  value; \<open>extract_file_production\<close> is the method, the body under its handler. The body
  calls the method again, flattened, when the directories cannot be created.
\<close>

function try_body ::
    "source_file \<Rightarrow> world \<Rightarrow> session \<Rightarrow> string \<Rightarrow> string \<Rightarrow> string \<Rightarrow> bool \<Rightarrow>
     (exn + bool) \<times> session"
  and extract_file_production ::
    "source_file \<Rightarrow> world \<Rightarrow> session \<Rightarrow> string \<Rightarrow> string \<Rightarrow> string \<Rightarrow> bool \<Rightarrow> bool \<times> session"
where
  "try_body f w s remote_path local_base_dir category flatten =
     (if remote_path \<in> extracted_files s then (Inr False, s)
      else
        (let filename = basename remote_path;
             local_file = local_path (md5 w) remote_path local_base_dir flatten
         in case exists_nonempty (disk s) local_file of
              Inl e \<Rightarrow> (Inl e, s)
            | Inr True \<Rightarrow> (Inr False, s)
            | Inr False \<Rightarrow>
                (case mkdir_raises w (parent local_file) of
                   Some e \<Rightarrow>
                     if e = OSError
                     then (let s1 = count_path_error s
                           in if \<not> flatten
                              then (case extract_file_production f w s1 remote_path local_base_dir
                                           category True of
                                      (b, s2) \<Rightarrow> (Inr b, s2))
                              else (Inr False, s1))
                     else (Inl e, s)
                 | None \<Rightarrow> pull_and_verify f w s remote_path local_file category filename)))"
| "extract_file_production f w s remote_path local_base_dir category flatten =
     (case try_body f w s remote_path local_base_dir category flatten of
        (Inl e, s1) \<Rightarrow> on_exception f s1 (basename remote_path) e
      | (Inr b, s1) \<Rightarrow> (b, s1))"
  by pat_completeness auto
termination
  by (relation "measure (\<lambda>x. case x of
         Inl (f, w, s, r, b, c, flatten) \<Rightarrow> (if flatten then 0 else 2)
       | Inr (f, w, s, r, b, c, flatten) \<Rightarrow> (if flatten then 1 else 3))") auto

declare try_body.simps [simp del]

declare extract_file_production.simps [simp del]

text \<open>A session as a sequence of extraction requests, each on the state the one before left.\<close>

record request =
  req_path :: string
  req_base :: string
  req_category :: string
  req_flatten :: bool

fun run_session ::
  "source_file \<Rightarrow> world \<Rightarrow> session \<Rightarrow> request list \<Rightarrow> bool list \<times> session" where
  "run_session f w s [] = ([], s)"
| "run_session f w s (r # rs) =
     (case extract_file_production f w s (req_path r) (req_base r) (req_category r) (req_flatten r) of
        (b, s1) \<Rightarrow> (case run_session f w s1 rs of (bs, s2) \<Rightarrow> (b # bs, s2)))"

subsection \<open>The adb commands of the three methods\<close>

text \<open>
  The commands that the theorems about the order of the methods name: the direct pull, the
  four commands of the staged copy (copy, permissions, pull of the staged file, removal),
  and the two commands of the inline read.
\<close>

definition private_storage :: "string \<Rightarrow> bool" where
  "private_storage remote_path =
     (startswith remote_path ''/data/data/'' \<or> startswith remote_path ''/data/user/'')"

definition pull_command :: "string \<Rightarrow> string \<Rightarrow> string list" where
  "pull_command src dst = [''pull'', src, dst]"

definition su_command :: "string \<Rightarrow> string list" where
  "su_command cmd = [''shell'', ''su'', ''-c'', cmd]"

definition staged_commands :: "string \<Rightarrow> string \<Rightarrow> string \<Rightarrow> string list list" where
  "staged_commands remote_path temp_path local_file =
     [su_command (''cp '' @ quoted remote_path @ '' '' @ quoted temp_path),
      su_command (''chmod 644 '' @ quoted temp_path),
      pull_command temp_path local_file,
      su_command (''rm '' @ quoted temp_path)]"

definition stat_command :: "bool \<Rightarrow> string \<Rightarrow> string list" where
  "stat_command as_root remote_path =
     (if as_root then su_command (''stat -c %s '' @ quoted remote_path @ '' 2>/dev/null'')
      else [''shell'', ''stat -c %s '' @ quoted remote_path @ '' 2>/dev/null''])"

definition cat_command :: "bool \<Rightarrow> string \<Rightarrow> string list" where
  "cat_command as_root remote_path =
     (if as_root then su_command (''cat '' @ quoted remote_path @ '' 2>/dev/null'')
      else [''shell'', ''cat '' @ quoted remote_path @ '' 2>/dev/null''])"

text \<open>The size that the stat command reports, when its output reads as an integer.\<close>

definition reported_size :: "world \<Rightarrow> string list list \<Rightarrow> bool \<Rightarrow> string \<Rightarrow> int option" where
  "reported_size w history as_root remote_path =
     py_int (strip (fst (adb_reply w history (stat_command as_root remote_path) 30)))"

definition small_file :: "int option \<Rightarrow> bool" where
  "small_file reported = (case reported of None \<Rightarrow> False | Some n \<Rightarrow> 0 < n \<and> n < 5 * 1024 * 1024)"

subsection \<open>Components that begin with a dot\<close>

text \<open>
  \<open>dotfree start s\<close>: reading \<open>s\<close> from a position that is (\<open>start\<close>) or is not the
  beginning of a component, no component begins with a dot.
\<close>

fun dotfree :: "bool \<Rightarrow> string \<Rightarrow> bool" where
  "dotfree start [] = True"
| "dotfree start (c # cs) = ((start \<longrightarrow> c \<noteq> CHR ''.'') \<and> dotfree (c = CHR ''/'') cs)"

subsection \<open>Concrete surroundings for the examples\<close>

text \<open>
  A digest function for the concrete examples: it tells strings of odd length from strings
  of even length. The theorems hold for every digest function.
\<close>

definition sample_digest :: digest where
  "sample_digest s = (if even (length s) then 0 else 0x80000000000000000000000000000000)"

text \<open>
  Devices for the examples. On \<open>failing_device\<close> every command ends with return code 1
  and no file arrives. On \<open>pulling_device n\<close> every command ends with return code 0 and
  a pull leaves a file of \<open>n\<close> bytes. \<open>recovering_device\<close> behaves like the first for
  its first two commands and like \<open>pulling_device 5\<close> afterwards. On \<open>inline_device\<close>
  pulls fail, the stat command reports 12 bytes and the cat command prints five characters.
\<close>

definition failing_device :: world where
  "failing_device = \<lparr>md5 = sample_digest,
     adb_run = (\<lambda>history cmd timeout. Completed [] 1),
     pull_leaves = (\<lambda>history cmd. None),
     mkdir_raises = (\<lambda>p. None),
     write_raises = (\<lambda>p. None),
     unlink_raises = (\<lambda>p. None)\<rparr>"

definition pulling_device :: "nat \<Rightarrow> world" where
  "pulling_device n = \<lparr>md5 = sample_digest,
     adb_run = (\<lambda>history cmd timeout. Completed [] 0),
     pull_leaves = (\<lambda>history cmd. Some (File n)),
     mkdir_raises = (\<lambda>p. None),
     write_raises = (\<lambda>p. None),
     unlink_raises = (\<lambda>p. None)\<rparr>"



text \<open>No local file yet.\<close>

definition no_files :: "string \<Rightarrow> entry" where
  "no_files p = Missing"

text \<open>Local files for the examples: one file of 7 bytes, and a disk where every test raises.\<close>

definition one_file :: "string \<Rightarrow> entry" where
  "one_file p = (if p = ''out/img1.jpg'' then File 7 else Missing)"


text \<open>
  The request of the scenario of the specification, the session after its file of 5 bytes
  was pulled, and the session after the two commands of a failed attempt.
\<close>

definition img1_request :: request where
  "img1_request = \<lparr>req_path = ''/sdcard/DCIM/img1.jpg'', req_base = ''out'',
     req_category = ''media'', req_flatten = True\<rparr>"

definition after_img1 :: session where
  "after_img1 = (new_session False no_files)
     \<lparr>stats := initial_stats\<lparr>media_mb := 5 / 1024 / 1024, total_mb := 5 / 1024 / 1024,
                              total_files := 1\<rparr>,
      extracted_files := {''/sdcard/DCIM/img1.jpg''},
      disk := no_files(''out/img1.jpg'' := File 5),
      issued := [pull_command ''/sdcard/DCIM/img1.jpg'' ''out/img1.jpg'']\<rparr>"


section \<open>The path sanitizer\<close>

lemma length_hexdigest: "length (hexdigest d) = 32"
  by (simp add: hexdigest_def)

lemma hex_digit_cases: "hex_digit n \<in> set ''0123456789abcdef''"
  unfolding hex_digit_def by (rule nth_mem) simp

lemma set_hexdigest: "set (hexdigest d) \<subseteq> set ''0123456789abcdef''"
  using hex_digit_cases by (auto simp: hexdigest_def)

lemma slash_notin_hash_suffix: "CHR ''/'' \<notin> set (take 8 (hexdigest d))"
  using set_hexdigest[of d] by (auto dest!: in_set_takeD)

lemma split_nonempty: "split sep xs \<noteq> []"
  by (induction xs) (auto split: list.splits)

lemma split_replicate:
  "c \<noteq> sep \<Longrightarrow> split sep (replicate n c @ xs) =
     (case split sep xs of p # ps \<Rightarrow> (replicate n c @ p) # ps | [] \<Rightarrow> [replicate n c])"
  by (induction n) (auto split: list.splits simp: split_nonempty)

lemma split_no_sep: "sep \<notin> set xs \<Longrightarrow> split sep xs = [xs]"
  by (induction xs) auto

lemma sanitize_part_replicate:
  assumes "c \<notin> set invalid_chars" and "c \<noteq> CHR ''.''"
  shows "sanitize_part (replicate n c) = replicate (min n 100) c"
proof -
  have kept: "foldl (\<lambda>s c. replace c CHR ''_'' s) (replicate n c) invalid_chars = replicate n c"
    using assms by (simp add: invalid_chars_def replace_def)
  have no_dot: "\<not> startswith (replicate n c) ''.''"
    using assms by (cases n) (simp_all add: startswith_def)
  show ?thesis
    by (simp add: sanitize_part_def kept no_dot Let_def min_def)
qed

lemmas sanitize_eval =
  joined_result_def sanitized_parts_def split_replicate split_no_sep sanitize_part_replicate
  sanitize_part_def invalid_chars_def replace_def startswith_def



text \<open>The scenario of the specification: the colon is replaced, the leading slash dropped.\<close>

lemma sanitize_path_scenario:
  "sanitize_path dg ''/data/data/com.example:app/databases/chat.db''
     = ''data/data/com.example_app/databases/chat.db''"
  by (simp add: sanitize_path_def joined_result_def sanitized_parts_def sanitize_part_def Let_def
      MAX_PATH_LENGTH_def invalid_chars_def replace_def startswith_def)

text \<open>
  C4. The components of the sanitized path are cut to 100 characters before the join, but
  the limit on the total length is applied afterwards and appends 9 characters to whatever
  component the cut at 190 characters ends in. For a path of three components of 89, 100
  and 20 characters the output has the components of 89 and 109 characters.
\<close>

theorem sanitize_path_long_component:
  "map length (split CHR ''/'' (sanitize_path dg
      (replicate 89 CHR ''a'' @ ''/'' @ replicate 100 CHR ''b'' @ ''/'' @ replicate 20 CHR ''c'')))
     = [89, 109]"
proof -
  have joined: "joined_result
      (replicate 89 CHR ''a'' @ ''/'' @ replicate 100 CHR ''b'' @ ''/'' @ replicate 20 CHR ''c'')
    = replicate 89 CHR ''a'' @ ''/'' @ replicate 100 CHR ''b'' @ ''/'' @ replicate 20 CHR ''c''"
    by (simp add: sanitize_eval)
  show ?thesis
    unfolding sanitize_path_def joined
    by (simp add: MAX_PATH_LENGTH_def Let_def split_replicate split_no_sep length_hexdigest
        slash_notin_hash_suffix)
qed

text \<open>
  C5, as stated, fails: the digest is taken over the joined sanitized string, not over
  the input, so two inputs that differ only in characters the sanitizer replaces have the
  same output. The two inputs below have 206 characters and differ in the last one.
\<close>

theorem sanitize_path_collision:
  "replicate 100 CHR ''a'' @ ''/'' @ replicate 100 CHR ''b'' @ ''/ccc:''
     \<noteq> replicate 100 CHR ''a'' @ ''/'' @ replicate 100 CHR ''b'' @ ''/ccc*'' \<and>
   take (MAX_PATH_LENGTH - 10) (replicate 100 CHR ''a'' @ ''/'' @ replicate 100 CHR ''b'' @ ''/ccc:'')
     = take (MAX_PATH_LENGTH - 10) (replicate 100 CHR ''a'' @ ''/'' @ replicate 100 CHR ''b'' @ ''/ccc*'') \<and>
   sanitize_path sample_digest (replicate 100 CHR ''a'' @ ''/'' @ replicate 100 CHR ''b'' @ ''/ccc:'')
     = sanitize_path sample_digest (replicate 100 CHR ''a'' @ ''/'' @ replicate 100 CHR ''b'' @ ''/ccc*'')"
proof -
  have "joined_result (replicate 100 CHR ''a'' @ ''/'' @ replicate 100 CHR ''b'' @ ''/ccc:'')
      = joined_result (replicate 100 CHR ''a'' @ ''/'' @ replicate 100 CHR ''b'' @ ''/ccc*'')"
    by (simp add: sanitize_eval)
  then show ?thesis
    by (simp add: sanitize_path_def MAX_PATH_LENGTH_def)
qed

text \<open>
  C5, amended. When the joined sanitized strings of two inputs are both longer than
  \<open>MAX_PATH_LENGTH\<close>, the outputs are equal exactly when the joined strings agree on their
  first \<open>MAX_PATH_LENGTH - 10\<close> characters and their digests agree on the first 8
  hexadecimal digits. The digest is taken over the whole joined string, so two joined
  strings with the same first 190 characters are told apart whenever their digests are.
\<close>

theorem truncated_outputs_equal_iff:
  assumes "length (joined_result p) > MAX_PATH_LENGTH"
    and "length (joined_result q) > MAX_PATH_LENGTH"
  shows "sanitize_path dg p = sanitize_path dg q \<longleftrightarrow>
         take (MAX_PATH_LENGTH - 10) (joined_result p) = take (MAX_PATH_LENGTH - 10) (joined_result q) \<and>
         take 8 (hexdigest (dg (joined_result p))) = take 8 (hexdigest (dg (joined_result q)))"
  using assms by (simp add: sanitize_path_def Let_def MAX_PATH_LENGTH_def)

theorem truncated_outputs_equal_iff_witness:
  "length (joined_result (replicate 100 CHR ''a'' @ ''/'' @ replicate 100 CHR ''b'' @ ''/c''))
     > MAX_PATH_LENGTH \<and>
   length (joined_result (replicate 100 CHR ''a'' @ ''/'' @ replicate 100 CHR ''b'' @ ''/cc''))
     > MAX_PATH_LENGTH \<and>
   take (MAX_PATH_LENGTH - 10) (joined_result (replicate 100 CHR ''a'' @ ''/'' @ replicate 100 CHR ''b'' @ ''/c''))
     = take (MAX_PATH_LENGTH - 10) (joined_result (replicate 100 CHR ''a'' @ ''/'' @ replicate 100 CHR ''b'' @ ''/cc'')) \<and>
   sanitize_path sample_digest (replicate 100 CHR ''a'' @ ''/'' @ replicate 100 CHR ''b'' @ ''/c'')
     \<noteq> sanitize_path sample_digest (replicate 100 CHR ''a'' @ ''/'' @ replicate 100 CHR ''b'' @ ''/cc'')"
proof -
  have p: "joined_result (replicate 100 CHR ''a'' @ ''/'' @ replicate 100 CHR ''b'' @ ''/c'')
      = replicate 100 CHR ''a'' @ ''/'' @ replicate 100 CHR ''b'' @ ''/c''"
    by (simp add: sanitize_eval)
  have q: "joined_result (replicate 100 CHR ''a'' @ ''/'' @ replicate 100 CHR ''b'' @ ''/cc'')
      = replicate 100 CHR ''a'' @ ''/'' @ replicate 100 CHR ''b'' @ ''/cc''"
    by (simp add: sanitize_eval)
  have lp: "length (joined_result (replicate 100 CHR ''a'' @ ''/'' @ replicate 100 CHR ''b'' @ ''/c''))
      > MAX_PATH_LENGTH"
    unfolding p by (simp add: MAX_PATH_LENGTH_def)
  have lq: "length (joined_result (replicate 100 CHR ''a'' @ ''/'' @ replicate 100 CHR ''b'' @ ''/cc''))
      > MAX_PATH_LENGTH"
    unfolding q by (simp add: MAX_PATH_LENGTH_def)
  have same: "take (MAX_PATH_LENGTH - 10) (joined_result (replicate 100 CHR ''a'' @ ''/'' @ replicate 100 CHR ''b'' @ ''/c''))
     = take (MAX_PATH_LENGTH - 10) (joined_result (replicate 100 CHR ''a'' @ ''/'' @ replicate 100 CHR ''b'' @ ''/cc''))"
    unfolding p q by (simp add: MAX_PATH_LENGTH_def)
  have digests: "take 8 (hexdigest (sample_digest (joined_result (replicate 100 CHR ''a'' @ ''/'' @ replicate 100 CHR ''b'' @ ''/c''))))
     \<noteq> take 8 (hexdigest (sample_digest (joined_result (replicate 100 CHR ''a'' @ ''/'' @ replicate 100 CHR ''b'' @ ''/cc''))))"
    unfolding p q
    by (simp add: hexdigest_def sample_digest_def hex_digit_def upt_rec drop_bit_eq_div unat_div)
  from truncated_outputs_equal_iff [OF lp lq, of sample_digest] digests
  have "sanitize_path sample_digest (replicate 100 CHR ''a'' @ ''/'' @ replicate 100 CHR ''b'' @ ''/c'')
     \<noteq> sanitize_path sample_digest (replicate 100 CHR ''a'' @ ''/'' @ replicate 100 CHR ''b'' @ ''/cc'')"
    by blast
  with lp lq same show ?thesis by blast
qed

subsection \<open>What the sanitizer does guarantee\<close>

text \<open>A result that is cut has exactly 199 characters.\<close>

lemma sanitize_path_truncated_length:
  "length (joined_result p) > MAX_PATH_LENGTH \<Longrightarrow> length (sanitize_path dg p) = 199"
  by (simp add: sanitize_path_def Let_def MAX_PATH_LENGTH_def length_hexdigest)

lemma sanitize_path_short:
  "length (joined_result p) \<le> MAX_PATH_LENGTH \<Longrightarrow> sanitize_path dg p = joined_result p"
  by (simp add: sanitize_path_def Let_def)

text \<open>The ten replacements together map every invalid character to the underscore.\<close>

lemma foldl_replace:
  "foldl (\<lambda>s c. replace c CHR ''_'' s) part cs
     = map (\<lambda>x. if x \<in> set cs then CHR ''_'' else x) part"
proof (induction cs arbitrary: part)
  case Nil
  show ?case by simp
next
  case (Cons c cs)
  show ?case
    by (simp add: Cons.IH) (auto simp: replace_def)
qed

lemma sanitize_part_legal: "set (sanitize_part part) \<inter> set invalid_chars = {}"
proof -
  let ?r = "map (\<lambda>x. if x \<in> set invalid_chars then CHR ''_'' else x) part"
  have underscore: "CHR ''_'' \<notin> set invalid_chars"
    by (simp add: invalid_chars_def)
  then have r: "set ?r \<inter> set invalid_chars = {}" by auto
  have "set (drop 1 ?r) \<subseteq> set ?r" by (rule set_drop_subset)
  with r underscore have d: "set (CHR ''_'' # drop 1 ?r) \<inter> set invalid_chars = {}" by auto
  have t: "set (take 100 xs) \<inter> set invalid_chars = {}"
    if "set xs \<inter> set invalid_chars = {}" for xs
    using that set_take_subset[of 100 xs] by blast
  show ?thesis
    unfolding sanitize_part_def foldl_replace Let_def
    using r d t[OF r] t[OF d] by (simp del: set_map list.set)
qed

lemma set_join: "set (join sep ps) \<subseteq> set sep \<union> \<Union> (set ` set ps)"
  by (induction sep ps rule: join.induct) auto

lemma joined_result_legal: "set (joined_result p) \<inter> set invalid_chars = {}"
proof -
  have "set (joined_result p) \<subseteq> set ''/'' \<union> \<Union> (set ` set (sanitized_parts p))"
    unfolding joined_result_def by (rule set_join)
  moreover have "set ''/'' \<inter> set invalid_chars = {}"
    by (simp add: invalid_chars_def)
  moreover have "\<Union> (set ` set (sanitized_parts p)) \<inter> set invalid_chars = {}"
    using sanitize_part_legal by (auto simp: sanitized_parts_def)
  ultimately show ?thesis by blast
qed

text \<open>
  The part of C4 about characters holds: the output has none of the ten invalid
  characters, whether it was cut or not.
\<close>

lemma sanitize_path_legal: "set (sanitize_path dg p) \<inter> set invalid_chars = {}"
proof -
  have hex: "set (take 8 (hexdigest d)) \<inter> set invalid_chars = {}" for d
    using set_hexdigest[of d] set_take_subset[of 8 "hexdigest d"]
    by (auto simp: invalid_chars_def)
  have cut: "set (take n (joined_result p)) \<inter> set invalid_chars = {}" for n
    using joined_result_legal[of p] set_take_subset[of n "joined_result p"] by blast
  have underscore: "CHR ''_'' \<notin> set invalid_chars"
    by (simp add: invalid_chars_def)
  show ?thesis
  proof (cases "length (joined_result p) > MAX_PATH_LENGTH")
    case False
    then show ?thesis
      using joined_result_legal[of p] by (simp add: sanitize_path_def)
  next
    case True
    then have "sanitize_path dg p = take (MAX_PATH_LENGTH - 10) (joined_result p) @
        CHR ''_'' # take 8 (hexdigest (dg (joined_result p)))"
      by (simp add: sanitize_path_def Let_def)
    moreover have "set (take (MAX_PATH_LENGTH - 10) (joined_result p) @
        CHR ''_'' # take 8 (hexdigest (dg (joined_result p)))) \<inter> set invalid_chars = {}"
      using cut[of "MAX_PATH_LENGTH - 10"] hex[of "dg (joined_result p)"] underscore
      unfolding set_append set_simps by blast
    ultimately show ?thesis by simp
  qed
qed

text \<open>
  The part of C4 about leading dots holds as well: no component of the output begins
  with a dot.
\<close>

lemma dotfree_split:
  "dotfree start s \<longleftrightarrow>
     (start \<longrightarrow> \<not> startswith (hd (split CHR ''/'' s)) ''.'') \<and>
     (\<forall>c \<in> set (tl (split CHR ''/'' s)). \<not> startswith c ''.'')"
proof (induction s arbitrary: start)
  case Nil
  show ?case by (simp add: startswith_def)
next
  case (Cons x xs)
  obtain p ps where split: "split CHR ''/'' xs = p # ps"
    using split_nonempty[of "CHR ''/''" xs] by (cases "split CHR ''/'' xs") auto
  show ?case
  proof (cases "x = CHR ''/''")
    case True
    then show ?thesis
      using Cons.IH[of True] split by (simp add: startswith_def)
  next
    case False
    then show ?thesis
      using Cons.IH[of False] split by (simp add: startswith_def)
  qed
qed

lemma dotfree_components:
  "dotfree True s \<longleftrightarrow> (\<forall>c \<in> set (split CHR ''/'' s). \<not> startswith c ''.'')"
proof -
  obtain p ps where "split CHR ''/'' s = p # ps"
    using split_nonempty[of "CHR ''/''" s] by (cases "split CHR ''/'' s") auto
  then show ?thesis by (simp add: dotfree_split[of True s])
qed

lemma dotfree_append:
  "dotfree start (xs @ ys) \<longleftrightarrow>
     dotfree start xs \<and> dotfree (if xs = [] then start else last xs = CHR ''/'') ys"
  by (induction xs arbitrary: start) auto

lemma dotfree_take: "dotfree start s \<Longrightarrow> dotfree start (take n s)"
proof (induction s arbitrary: start n)
  case Nil
  then show ?case by simp
next
  case (Cons x xs)
  then show ?case by (cases n) simp_all
qed

lemma dotfree_inside: "CHR ''/'' \<notin> set s \<Longrightarrow> dotfree False s"
proof (induction s)
  case Nil
  show ?case by simp
next
  case (Cons a s)
  then have "a \<noteq> CHR ''/''" "dotfree False s" by auto
  then show ?case by simp
qed

lemma dotfree_part:
  "CHR ''/'' \<notin> set p \<Longrightarrow> \<not> startswith p ''.'' \<Longrightarrow> dotfree start p"
proof (cases p)
  case Nil
  then show ?thesis by simp
next
  case (Cons a cs)
  assume "CHR ''/'' \<notin> set p" and "\<not> startswith p ''.''"
  with Cons have "a \<noteq> CHR ''/''" "CHR ''/'' \<notin> set cs" "a \<noteq> CHR ''.''"
    by (auto simp: startswith_def)
  with Cons show ?thesis by (simp add: dotfree_inside)
qed

lemma dotfree_join:
  assumes "\<forall>p \<in> set ps. CHR ''/'' \<notin> set p \<and> p \<noteq> [] \<and> \<not> startswith p ''.''"
  shows "dotfree True (join ''/'' ps)"
  using assms
proof (induction "''/''" ps rule: join.induct)
  case 1
  show ?case by simp
next
  case (2 p)
  then show ?case by (simp add: dotfree_part)
next
  case (3 p q ps)
  then have "dotfree True (join ''/'' (q # ps))" by simp
  moreover from 3(2) have "dotfree True p" "p \<noteq> []"
    by (auto simp: dotfree_part)
  moreover from 3(2) have "last p \<in> set p" "CHR ''/'' \<notin> set p"
    by simp_all
  then have "last p \<noteq> CHR ''/''" by metis
  ultimately show ?case
    by (simp add: dotfree_append)
qed

lemma split_elements: "c \<in> set (split sep s) \<Longrightarrow> sep \<notin> set c"
proof (induction s arbitrary: c)
  case Nil
  then show ?case by simp
next
  case (Cons x xs)
  obtain p ps where split: "split sep xs = p # ps"
    using split_nonempty[of sep xs] by (cases "split sep xs") auto
  with Cons show ?case
    by (cases "x = sep") auto
qed

lemma sanitize_part_shape:
  assumes "CHR ''/'' \<notin> set q" and "q \<noteq> []"
  shows "CHR ''/'' \<notin> set (sanitize_part q) \<and> sanitize_part q \<noteq> [] \<and>
         \<not> startswith (sanitize_part q) ''.''"
proof -
  let ?r = "map (\<lambda>x. if x \<in> set invalid_chars then CHR ''_'' else x) q"
  let ?d = "if startswith ?r ''.'' then CHR ''_'' # drop 1 ?r else ?r"
  have r: "CHR ''/'' \<notin> set ?r" "?r \<noteq> []"
    using assms by auto
  have "set (drop 1 ?r) \<subseteq> set ?r" by (rule set_drop_subset)
  with r have d: "CHR ''/'' \<notin> set ?d" "?d \<noteq> []" "\<not> startswith ?d ''.''"
    by (auto simp: startswith_def)
  have part: "sanitize_part q = (if length ?d > 100 then take 100 ?d else ?d)"
    by (simp add: sanitize_part_def foldl_replace Let_def)
  have "CHR ''/'' \<notin> set (take 100 ?d)"
    using d(1) set_take_subset[of 100 ?d] by blast
  moreover have "length ?d > 100 \<Longrightarrow> take 100 ?d \<noteq> []"
    by auto
  moreover have "\<not> startswith (take 100 ?d) ''.''"
    using d(2,3) by (cases ?d) (simp_all add: startswith_def)
  ultimately show ?thesis
    unfolding part using d by presburger
qed

lemma joined_result_dotfree: "dotfree True (joined_result p)"
  unfolding joined_result_def
proof (rule dotfree_join, rule ballI)
  fix part assume "part \<in> set (sanitized_parts p)"
  then obtain q where "q \<in> set (split CHR ''/'' p)" "q \<noteq> []" "part = sanitize_part q"
    by (auto simp: sanitized_parts_def)
  with split_elements[of q "CHR ''/''" p] sanitize_part_shape[of q]
  show "CHR ''/'' \<notin> set part \<and> part \<noteq> [] \<and> \<not> startswith part ''.''"
    by simp
qed

lemma sanitize_path_no_leading_dot:
  "\<forall>c \<in> set (split CHR ''/'' (sanitize_path dg p)). \<not> startswith c ''.''"
proof -
  have "dotfree True (sanitize_path dg p)"
  proof (cases "length (joined_result p) > MAX_PATH_LENGTH")
    case False
    then show ?thesis
      using joined_result_dotfree[of p] by (simp add: sanitize_path_def)
  next
    case True
    have cut: "dotfree True (take (MAX_PATH_LENGTH - 10) (joined_result p))"
      using joined_result_dotfree[of p] by (rule dotfree_take)
    have tail: "dotfree False (take 8 (hexdigest (dg (joined_result p))))"
      using slash_notin_hash_suffix by (rule dotfree_inside)
    from True show ?thesis
      by (simp add: sanitize_path_def Let_def dotfree_append cut tail)
  qed
  then show ?thesis by (simp add: dotfree_components)
qed

section \<open>What each step of the pipeline changes\<close>

lemma exists_nonempty_True: "exists_nonempty d p = Inr True \<longleftrightarrow> (\<exists>n>0. d p = File n)"
  by (auto simp: exists_nonempty_def path_exists_def st_size_def split: entry.splits)

lemma transfer_effect_shell [simp]:
  "transfer_effect w h [a, b] d = d" "transfer_effect w h [a, b, c, e] d = d"
  by (simp_all add: transfer_effect_def)

lemma transfer_effect_pull_other [simp]:
  "p \<noteq> dst \<Longrightarrow> transfer_effect w h [v, src, dst] d p = d p"
  by (simp add: transfer_effect_def split: option.splits)

lemma adb_fields [simp]:
  "stats (snd (adb f w s cmd t)) = stats s"
  "extracted_files (snd (adb f w s cmd t)) = extracted_files s"
  "has_root (snd (adb f w s cmd t)) = has_root s"
  "temp_counter (snd (adb f w s cmd t)) = temp_counter s"
  "issued (snd (adb f w s cmd t)) = issued s @ [cmd]"
  "disk (snd (adb f w s cmd t)) = transfer_effect w (issued s) cmd (disk s)"
  "fst (adb f w s cmd t) = adb_reply w (issued s) cmd t"
  by (simp_all add: adb_def Let_def write_log_def split: adb_outcome.splits)

lemma shell_fields [simp]:
  "stats (snd (shell f w s cmd r t)) = stats s"
  "extracted_files (snd (shell f w s cmd r t)) = extracted_files s"
  "has_root (snd (shell f w s cmd r t)) = has_root s"
  "temp_counter (snd (shell f w s cmd r t)) = temp_counter s"
  "disk (snd (shell f w s cmd r t)) = disk s"
  "issued (snd (shell f w s cmd r t)) =
     issued s @ [if r \<and> has_root s then [''shell'', ''su'', ''-c'', cmd] else [''shell'', cmd]]"
  "fst (shell f w s cmd r t) =
     adb_reply w (issued s) (if r \<and> has_root s then [''shell'', ''su'', ''-c'', cmd] else [''shell'', cmd]) t"
  by (simp_all add: shell_def)

lemma write_log_fields [simp]:
  "stats (write_log s m l) = stats s"
  "extracted_files (write_log s m l) = extracted_files s"
  "has_root (write_log s m l) = has_root s"
  "temp_counter (write_log s m l) = temp_counter s"
  "disk (write_log s m l) = disk s"
  "issued (write_log s m l) = issued s"
  by (simp_all add: write_log_def)

subsection \<open>Method 1\<close>

lemma direct_pull_fields [simp]:
  "stats (snd (direct_pull f w s r l)) = stats s"
  "extracted_files (snd (direct_pull f w s r l)) = extracted_files s"
  "has_root (snd (direct_pull f w s r l)) = has_root s"
  "temp_counter (snd (direct_pull f w s r l)) = temp_counter s"
  "issued (snd (direct_pull f w s r l)) =
     issued s @ (if private_storage r then [] else [pull_command r l])"
  by (simp_all add: direct_pull_def split_beta private_storage_def pull_command_def)



subsection \<open>Method 2\<close>

lemma root_copy_fields [simp]:
  "stats (snd (root_copy f w s r l fn ok)) = stats s"
  "extracted_files (snd (root_copy f w s r l fn ok)) = extracted_files s"
  "has_root (snd (root_copy f w s r l fn ok)) = has_root s"
  "temp_counter (snd (root_copy f w s r l fn ok)) =
     (if \<not> ok \<and> has_root s then temp_counter s + 1 else temp_counter s)"
  by (simp_all add: root_copy_def split_beta Let_def)

lemma root_copy_issued:
  "issued (snd (root_copy f w s r l fn ok)) =
     issued s @ (if ok \<or> \<not> has_root s then []
                 else staged_commands r (temp_path_of w (temp_counter s + 1) fn) l)"
  by (simp add: root_copy_def split_beta Let_def staged_commands_def su_command_def pull_command_def)



subsection \<open>Method 3\<close>

lemma utf8_length_pos: "s \<noteq> [] \<Longrightarrow> utf8_length s > 0"
  by (cases s) (simp_all add: utf8_length_def)

text \<open>The method with its intermediate states written out.\<close>

lemma direct_cat_unfold:
  "direct_cat f w s r l ok =
     (if ok then (True, s)
      else (let stat = shell f w s (''stat -c %s '' @ quoted r @ '' 2>/dev/null'') (has_root s) 30;
                s1 = snd stat
            in if \<not> small_file (reported_size w (issued s) (has_root s) r) then (False, s1)
               else (let cat = shell f w s1 (''cat '' @ quoted r @ '' 2>/dev/null'') (has_root s) 30;
                         s2 = snd cat
                     in if snd (fst cat) = 0 \<and> fst (fst cat) \<noteq> [] \<and> write_raises w l = None
                        then (True, s2\<lparr>disk := (disk s2)(l := File (utf8_length (fst (fst cat))))\<rparr>)
                        else (False, s2))))"
proof (cases ok)
  case True
  then show ?thesis by (simp add: direct_cat_def)
next
  case False
  have size: "py_int (strip (fst (fst (shell f w s (''stat -c %s '' @ quoted r @ '' 2>/dev/null'') (has_root s) 30))))
      = reported_size w (issued s) (has_root s) r"
    by (simp add: reported_size_def stat_command_def su_command_def)
  show ?thesis
  proof (cases "reported_size w (issued s) (has_root s) r")
    case None
    with False size show ?thesis
      by (simp add: direct_cat_def split_beta small_file_def)
  next
    case (Some n)
    with False size show ?thesis
      by (simp add: direct_cat_def split_beta small_file_def Let_def st_size_def utf8_length_pos
          option.case_eq_if)
  qed
qed

lemma direct_cat_fields [simp]:
  "stats (snd (direct_cat f w s r l ok)) = stats s"
  "extracted_files (snd (direct_cat f w s r l ok)) = extracted_files s"
  "has_root (snd (direct_cat f w s r l ok)) = has_root s"
  "temp_counter (snd (direct_cat f w s r l ok)) = temp_counter s"
  by (simp_all add: direct_cat_unfold Let_def)

lemma direct_cat_issued:
  "issued (snd (direct_cat f w s r l ok)) =
     issued s @ (if ok then []
                 else stat_command (has_root s) r #
                      (if small_file (reported_size w (issued s) (has_root s) r)
                       then [cat_command (has_root s) r] else []))"
  by (simp add: direct_cat_unfold Let_def stat_command_def cat_command_def su_command_def)



subsection \<open>The chain of the three methods\<close>


lemma strategy_chain_fault:
  assumes "strategy_chain f w s r l fn = (Inl e, s')"
  shows "(\<exists>s1. direct_pull f w s r l = (Inl e, s1) \<and> s' = s1) \<or>
         (\<exists>ok1 s1. direct_pull f w s r l = (Inr ok1, s1) \<and> root_copy f w s1 r l fn ok1 = (Inl e, s'))"
  using assms
  by (auto simp: strategy_chain_def split: prod.splits sum.splits)

lemma strategy_chain_fields [simp]:
  "stats (snd (strategy_chain f w s r l fn)) = stats s"
  "extracted_files (snd (strategy_chain f w s r l fn)) = extracted_files s"
  "has_root (snd (strategy_chain f w s r l fn)) = has_root s"
proof -
  obtain x1 s1 where 1: "direct_pull f w s r l = (x1, s1)" by (cases "direct_pull f w s r l")
  obtain x2 s2 where 2: "root_copy f w s1 r l fn (projr x1) = (x2, s2)"
    by (cases "root_copy f w s1 r l fn (projr x1)")
  obtain x3 s3 where 3: "direct_cat f w s2 r l (projr x2) = (x3, s3)"
    by (cases "direct_cat f w s2 r l (projr x2)")
  have a: "stats s1 = stats s" "extracted_files s1 = extracted_files s" "has_root s1 = has_root s"
    using direct_pull_fields[of f w s r l] by (simp_all add: 1)
  have b: "stats s2 = stats s1" "extracted_files s2 = extracted_files s1" "has_root s2 = has_root s1"
    using root_copy_fields[of f w s1 r l fn "projr x1"] by (simp_all add: 2)
  have c: "stats s3 = stats s2" "extracted_files s3 = extracted_files s2" "has_root s3 = has_root s2"
    using direct_cat_fields[of f w s2 r l "projr x2"] by (simp_all add: 3)
  show "stats (snd (strategy_chain f w s r l fn)) = stats s"
    "extracted_files (snd (strategy_chain f w s r l fn)) = extracted_files s"
    "has_root (snd (strategy_chain f w s r l fn)) = has_root s"
    using 1 2 3 a b c
    by (auto simp: strategy_chain_def split: sum.splits)
qed


lemma strategy_chain_prefix:
  "\<exists>cmds. issued (snd (strategy_chain f w s r l fn)) = issued s @ cmds"
proof -
  obtain x1 s1 where 1: "direct_pull f w s r l = (x1, s1)" by (cases "direct_pull f w s r l")
  obtain x2 s2 where 2: "root_copy f w s1 r l fn (projr x1) = (x2, s2)"
    by (cases "root_copy f w s1 r l fn (projr x1)")
  obtain x3 s3 where 3: "direct_cat f w s2 r l (projr x2) = (x3, s3)"
    by (cases "direct_cat f w s2 r l (projr x2)")
  have a: "\<exists>cmds. issued s1 = issued s @ cmds"
    using direct_pull_fields(5)[of f w s r l] by (simp add: 1)
  have b: "\<exists>cmds. issued s2 = issued s1 @ cmds"
    using root_copy_issued[of f w s1 r l fn "projr x1"] by (simp add: 2)
  have c: "\<exists>cmds. issued s3 = issued s2 @ cmds"
    using direct_cat_issued[of f w s2 r l "projr x2"] by (simp add: 3)
  show ?thesis
    using 1 2 3 a b c by (auto simp: strategy_chain_def split: sum.splits)
qed




subsection \<open>The verification and the handler\<close>

lemma unlink_result: "unlink w s p = Inr s1 \<Longrightarrow> s1 = s\<lparr>disk := (disk s)(p := Missing)\<rparr>"
  by (auto simp: unlink_def split: entry.splits option.splits)

lemma count_failed_fields [simp]:
  "extracted_files (count_failed s) = extracted_files s"
  "has_root (count_failed s) = has_root s"
  "disk (count_failed s) = disk s"
  "issued (count_failed s) = issued s"
  "log_entries (count_failed s) = log_entries s"
  by (simp_all add: count_failed_def)

lemmas verify_success_eval = verify_success_def Let_def sum.case_eq_if bool.case_eq_if

lemma verify_success_fields [simp]:
  "has_root (snd (verify_success f w s r l c fn ok)) = has_root s"
  "issued (snd (verify_success f w s r l c fn ok)) = issued s"
proof (atomize (full), cases "unlink w s l")
  case (Inl e)
  then show "has_root (snd (verify_success f w s r l c fn ok)) = has_root s \<and>
      issued (snd (verify_success f w s r l c fn ok)) = issued s"
    by (simp add: verify_success_eval)
next
  case (Inr s1)
  then show "has_root (snd (verify_success f w s r l c fn ok)) = has_root s \<and>
      issued (snd (verify_success f w s r l c fn ok)) = issued s"
    using unlink_result[OF Inr] by (simp add: verify_success_eval)
qed


lemma verify_success_extracted:
  "extracted_files (snd (verify_success f w s r l c fn ok)) =
     (if fst (verify_success f w s r l c fn ok) = Inr True then insert r (extracted_files s)
      else extracted_files s)"
proof (cases "unlink w s l")
  case (Inl e)
  then show ?thesis by (cases "path_exists (disk s) l") (simp_all add: verify_success_eval)
next
  case (Inr s1)
  then show ?thesis
    using unlink_result[OF Inr]
    by (cases "path_exists (disk s) l") (simp_all add: verify_success_eval)
qed


lemma on_exception_fields [simp]:
  "fst (on_exception f s fn e) = False"
  "extracted_files (snd (on_exception f s fn e)) = extracted_files s"
  "has_root (snd (on_exception f s fn e)) = has_root s"
  "disk (snd (on_exception f s fn e)) = disk s"
  "issued (snd (on_exception f s fn e)) = issued s"
  by (simp_all add: on_exception_def Let_def)

subsection \<open>The methods followed by the verification\<close>

lemma pull_and_verify_fields [simp]:
  "has_root (snd (pull_and_verify f w s r l c fn)) = has_root s"
proof -
  obtain x s1 where 1: "strategy_chain f w s r l fn = (x, s1)" by (cases "strategy_chain f w s r l fn")
  have "has_root s1 = has_root s"
    using strategy_chain_fields(3)[of f w s r l fn] by (simp add: 1)
  then show ?thesis
    by (simp add: pull_and_verify_def 1 split: sum.splits)
qed


lemma pull_and_verify_extracted:
  "extracted_files (snd (pull_and_verify f w s r l c fn)) =
     (if fst (pull_and_verify f w s r l c fn) = Inr True then insert r (extracted_files s)
      else extracted_files s)"
proof -
  obtain x s1 where 1: "strategy_chain f w s r l fn = (x, s1)" by (cases "strategy_chain f w s r l fn")
  have "extracted_files s1 = extracted_files s"
    using strategy_chain_fields(2)[of f w s r l fn] by (simp add: 1)
  then show ?thesis
    using verify_success_extracted[of f w s1 r l c fn]
    by (simp add: pull_and_verify_def 1 split: sum.splits)
qed


subsection \<open>The body of the method, case by case\<close>

lemma count_path_error_fields [simp]:
  "extracted_files (count_path_error s) = extracted_files s"
  "has_root (count_path_error s) = has_root s"
  "disk (count_path_error s) = disk s"
  "issued (count_path_error s) = issued s"
  "log_entries (count_path_error s) = log_entries s"
  by (simp_all add: count_path_error_def)

text \<open>
  Every call ends in one of seven ways: the path was extracted before; the test for an
  existing file raises; the file exists; \<^verbatim>\<open>mkdir\<close> raises something else than
  \<^verbatim>\<open>OSError\<close>; \<^verbatim>\<open>mkdir\<close> raises \<^verbatim>\<open>OSError\<close> in a flattened call; it does so in a
  call that is not flattened, which is then repeated flattened; or the methods run.
\<close>

lemma extract_file_production_cases
  [case_names dedup check_fault resume mkdir_fault mkdir_flat mkdir_retry run]:
  obtains "r \<in> extracted_files s"
      "extract_file_production f w s r b c fl = (False, s)"
  | e where "r \<notin> extracted_files s"
      "exists_nonempty (disk s) (local_path (md5 w) r b fl) = Inl e"
      "extract_file_production f w s r b c fl = on_exception f s (basename r) e"
  | "r \<notin> extracted_files s"
      "exists_nonempty (disk s) (local_path (md5 w) r b fl) = Inr True"
      "extract_file_production f w s r b c fl = (False, s)"
  | e where "r \<notin> extracted_files s"
      "exists_nonempty (disk s) (local_path (md5 w) r b fl) = Inr False"
      "mkdir_raises w (parent (local_path (md5 w) r b fl)) = Some e" "e \<noteq> OSError"
      "extract_file_production f w s r b c fl = on_exception f s (basename r) e"
  | "r \<notin> extracted_files s"
      "exists_nonempty (disk s) (local_path (md5 w) r b fl) = Inr False"
      "mkdir_raises w (parent (local_path (md5 w) r b fl)) = Some OSError" "fl"
      "extract_file_production f w s r b c fl = (False, count_path_error s)"
  | "r \<notin> extracted_files s"
      "exists_nonempty (disk s) (local_path (md5 w) r b fl) = Inr False"
      "mkdir_raises w (parent (local_path (md5 w) r b fl)) = Some OSError" "\<not> fl"
      "extract_file_production f w s r b c fl =
         extract_file_production f w (count_path_error s) r b c True"
  | "r \<notin> extracted_files s"
      "exists_nonempty (disk s) (local_path (md5 w) r b fl) = Inr False"
      "mkdir_raises w (parent (local_path (md5 w) r b fl)) = None"
      "extract_file_production f w s r b c fl =
         (case pull_and_verify f w s r (local_path (md5 w) r b fl) c (basename r) of
            (Inl e, s1) \<Rightarrow> on_exception f s1 (basename r) e
          | (Inr ok, s1) \<Rightarrow> (ok, s1))"
proof (cases "r \<in> extracted_files s")
  case True
  then have "extract_file_production f w s r b c fl = (False, s)"
    by (simp add: extract_file_production.simps try_body.simps)
  with True show ?thesis by (rule that(1))
next
  case new: False
  show ?thesis
  proof (cases "exists_nonempty (disk s) (local_path (md5 w) r b fl)")
    case (Inl e)
    with new have "extract_file_production f w s r b c fl = on_exception f s (basename r) e"
      by (simp add: extract_file_production.simps try_body.simps)
    with new Inl show ?thesis by (rule that(2))
  next
    case (Inr present)
    show ?thesis
    proof (cases present)
      case True
      with Inr have here: "exists_nonempty (disk s) (local_path (md5 w) r b fl) = Inr True"
        by simp
      with new have "extract_file_production f w s r b c fl = (False, s)"
        by (simp add: extract_file_production.simps try_body.simps)
      with new here show ?thesis by (rule that(3))
    next
      case False
      with Inr have absent: "exists_nonempty (disk s) (local_path (md5 w) r b fl) = Inr False"
        by simp
      show ?thesis
      proof (cases "mkdir_raises w (parent (local_path (md5 w) r b fl))")
        case None
        with new absent have "extract_file_production f w s r b c fl =
            (case pull_and_verify f w s r (local_path (md5 w) r b fl) c (basename r) of
                (Inl e, s1) \<Rightarrow> on_exception f s1 (basename r) e
              | (Inr ok, s1) \<Rightarrow> (ok, s1))"
          by (simp add: extract_file_production.simps try_body.simps)
        with new absent None show ?thesis by (rule that(7))
      next
        case (Some e)
        show ?thesis
        proof (cases "e = OSError")
          case other: False
          with new absent Some
          have "extract_file_production f w s r b c fl = on_exception f s (basename r) e"
            by (simp add: extract_file_production.simps try_body.simps)
          with new absent Some other show ?thesis by (rule that(4))
        next
          case True
          with Some have os: "mkdir_raises w (parent (local_path (md5 w) r b fl)) = Some OSError"
            by simp
          show ?thesis
          proof (cases fl)
            case True
            with new absent os
            have "extract_file_production f w s r b c fl = (False, count_path_error s)"
              by (simp add: extract_file_production.simps try_body.simps)
            with new absent os True show ?thesis by (rule that(5))
          next
            case False
            with new absent os
            have "extract_file_production f w s r b c fl =
                extract_file_production f w (count_path_error s) r b c True"
              by (subst extract_file_production.simps, subst try_body.simps)
                 (simp add: split_beta Let_def)
            with new absent os False show ?thesis by (rule that(6))
          qed
        qed
      qed
    qed
  qed
qed

lemma extract_dedup:
  "r \<in> extracted_files s \<Longrightarrow> extract_file_production f w s r b c fl = (False, s)"
  by (simp add: extract_file_production.simps try_body.simps)

lemma extract_resume:
  assumes "exists_nonempty (disk s) (local_path (md5 w) r b fl) = Inr True"
  shows "extract_file_production f w s r b c fl = (False, s)"
  using assms by (cases rule: extract_file_production_cases[of r s f w b c fl]) simp_all

text \<open>The set of extracted paths grows by the path of a call that returns true, and only so.\<close>

lemma run_case_extracted:
  assumes "x = (case pull_and_verify f w s r l c fn of
            (Inl e, s1) \<Rightarrow> on_exception f s1 fn e | (Inr ok, s1) \<Rightarrow> (ok, s1))"
  shows "extracted_files (snd x) = (if fst x then insert r (extracted_files s) else extracted_files s)"
  using pull_and_verify_extracted[of f w s r l c fn] assms
  by (cases "pull_and_verify f w s r l c fn") (auto split: sum.splits)

lemma extract_extracted_flat:
  "extracted_files (snd (extract_file_production f w s r b c True)) =
     (if fst (extract_file_production f w s r b c True) then insert r (extracted_files s)
      else extracted_files s)"
proof (cases rule: extract_file_production_cases[of r s f w b c True])
  case run
  from run_case_extracted[OF run(4)] show ?thesis .
qed simp_all

lemma extract_extracted:
  "extracted_files (snd (extract_file_production f w s r b c fl)) =
     (if fst (extract_file_production f w s r b c fl) then insert r (extracted_files s)
      else extracted_files s)"
proof (cases rule: extract_file_production_cases[of r s f w b c fl])
  case run
  from run_case_extracted[OF run(4)] show ?thesis .
next
  case mkdir_retry
  then show ?thesis
    using extract_extracted_flat[of f w "count_path_error s" r b c] by simp
qed simp_all

lemma extract_extracted_mono:
  "extracted_files s \<subseteq> extracted_files (snd (extract_file_production f w s r b c fl))"
  by (auto simp: extract_extracted)





subsection \<open>Sequences of calls\<close>

lemma run_session_length: "length (fst (run_session f w s reqs)) = length reqs"
  by (induction reqs arbitrary: s) (simp_all add: split_beta)

lemma run_session_extracted_mono:
  "extracted_files s \<subseteq> extracted_files (snd (run_session f w s reqs))"
proof (induction reqs arbitrary: s)
  case Nil
  show ?case by simp
next
  case (Cons q reqs)
  have "extracted_files s \<subseteq> extracted_files (snd (extract_file_production f w s (req_path q)
      (req_base q) (req_category q) (req_flatten q)))"
    by (rule extract_extracted_mono)
  also have "\<dots> \<subseteq> extracted_files (snd (run_session f w s (q # reqs)))"
    using Cons.IH by (simp add: split_beta)
  finally show ?case .
qed


lemma run_session_skips_extracted:
  "p \<in> extracted_files s \<Longrightarrow> j < length reqs \<Longrightarrow> req_path (reqs ! j) = p \<Longrightarrow>
   \<not> fst (run_session f w s reqs) ! j"
proof (induction reqs arbitrary: s j)
  case Nil
  then show ?case by simp
next
  case (Cons q reqs)
  let ?first = "extract_file_production f w s (req_path q) (req_base q) (req_category q)
      (req_flatten q)"
  show ?case
  proof (cases j)
    case 0
    with Cons.prems have "?first = (False, s)" by (simp add: extract_dedup)
    with 0 show ?thesis by (simp add: split_beta)
  next
    case (Suc k)
    have "p \<in> extracted_files (snd ?first)"
      using Cons.prems(1) extract_extracted_mono by blast
    from Cons.IH[OF this, of k] Cons.prems Suc show ?thesis by (simp add: split_beta)
  qed
qed

section \<open>The extraction session\<close>

lemmas pipeline_eval =
  pull_and_verify_def strategy_chain_def direct_pull_def root_copy_def direct_cat_unfold
  verify_success_def on_exception_def local_path_def basename_def lstrip_slash_def
  sanitize_path_def joined_result_def sanitized_parts_def sanitize_part_def invalid_chars_def
  replace_def startswith_def endswith_def path_join_def parent_def exists_nonempty_def
  path_exists_def st_size_def unlink_def adb_def adb_reply_def shell_def transfer_effect_def
  get_file_size_mb_def add_to_stats_def is_database_def count_failed_def count_path_error_def
  write_log_def MAX_FILE_SIZE_MB_def MAX_PATH_LENGTH_def PULL_TIMEOUT_def VERBOSE_def
  new_session_def initial_stats_def no_files_def reported_size_def small_file_def
  stat_command_def su_command_def pull_command_def py_int_def strip_def Let_def split_beta

subsection \<open>The scenario of the specification\<close>

lemma local_path_img1:
  "local_path dg ''/sdcard/DCIM/img1.jpg'' ''out'' True = ''out/img1.jpg''"
  by (simp add: pipeline_eval)

text \<open>
  The direct pull succeeds: the call returns true, the bytes are added to the media total
  and to the grand total, and the counter of files goes up by one.
\<close>

lemma pulled_img1:
  "extract_file_production f (pulling_device 5) (new_session False no_files)
     ''/sdcard/DCIM/img1.jpg'' ''out'' ''media'' True = (True, after_img1)"
  by (simp add: extract_file_production.simps try_body.simps pipeline_eval pulling_device_def
      after_img1_def)

subsection \<open>C8: a file that is already there\<close>

text \<open>
  C8. When a file of non-zero size exists at the local path computed for the call, the
  call returns false and leaves the whole state as it was: no adb command is issued and
  no field of the statistics changes.
\<close>

theorem existing_file_is_skipped:
  assumes "disk s (local_path (md5 w) remote_path local_base_dir flatten) = File n"
    and "0 < n"
  shows "extract_file_production f w s remote_path local_base_dir category flatten = (False, s) \<and>
         issued (snd (extract_file_production f w s remote_path local_base_dir category flatten))
           = issued s \<and>
         stats (snd (extract_file_production f w s remote_path local_base_dir category flatten))
           = stats s"
proof -
  from assms have "exists_nonempty (disk s) (local_path (md5 w) remote_path local_base_dir flatten)
      = Inr True"
    by (auto simp: exists_nonempty_True)
  from extract_resume[OF this] show ?thesis by simp
qed

theorem existing_file_is_skipped_witness:
  "disk (new_session False one_file)
     (local_path (md5 failing_device) ''/sdcard/DCIM/img1.jpg'' ''out'' True) = File 7 \<and>
   (extract_file_production Amat_data_collection failing_device (new_session False one_file)
      ''/sdcard/DCIM/img1.jpg'' ''out'' ''media'' True = (False, new_session False one_file) \<and>
    issued (snd (extract_file_production Amat_data_collection failing_device
      (new_session False one_file) ''/sdcard/DCIM/img1.jpg'' ''out'' ''media'' True))
      = issued (new_session False one_file) \<and>
    stats (snd (extract_file_production Amat_data_collection failing_device
      (new_session False one_file) ''/sdcard/DCIM/img1.jpg'' ''out'' ''media'' True))
      = stats (new_session False one_file))"
proof -
  have here: "disk (new_session False one_file)
     (local_path (md5 failing_device) ''/sdcard/DCIM/img1.jpg'' ''out'' True) = File 7"
    by (simp add: local_path_img1 new_session_def one_file_def)
  have pos: "0 < (7::nat)" by simp
  from conjI [OF here existing_file_is_skipped [OF here pos,
      where f = Amat_data_collection and category = "''media''"]]
  show ?thesis .
qed

subsection \<open>C2 and C9: a path is extracted once\<close>





text \<open>
  C9. In a sequence of calls, each on the state the one before left, once a call for a
  device path has returned true every later call for that path returns false.
\<close>

theorem extracted_once_per_session:
  assumes "i < j" and "j < length reqs"
    and "req_path (reqs ! i) = req_path (reqs ! j)"
    and "fst (run_session f w s reqs) ! i"
  shows "\<not> fst (run_session f w s reqs) ! j"
  using assms
proof (induction reqs arbitrary: s i j)
  case Nil
  then show ?case by simp
next
  case (Cons q reqs)
  let ?first = "extract_file_production f w s (req_path q) (req_base q) (req_category q)
      (req_flatten q)"
  from Cons.prems(1) obtain k where j: "j = Suc k" by (cases j) simp_all
  show ?case
  proof (cases i)
    case 0
    with Cons.prems(4) have "fst ?first" by (simp add: split_beta)
    then have "req_path q \<in> extracted_files (snd ?first)"
      by (simp add: extract_extracted)
    moreover from Cons.prems j 0 have "k < length reqs" "req_path (reqs ! k) = req_path q"
      by simp_all
    ultimately have "\<not> fst (run_session f w (snd ?first) reqs) ! k"
      by (rule run_session_skips_extracted)
    with j show ?thesis by (simp add: split_beta)
  next
    case (Suc i')
    with Cons.prems j have "i' < k" "k < length reqs" "req_path (reqs ! i') = req_path (reqs ! k)"
      "fst (run_session f w (snd ?first) reqs) ! i'"
      by (simp_all add: split_beta)
    from Cons.IH[OF this] j show ?thesis by (simp add: split_beta)
  qed
qed

theorem extracted_once_per_session_witness:
  "(0::nat) < 1 \<and> 1 < length [img1_request, img1_request] \<and>
   req_path ([img1_request, img1_request] ! 0) = req_path ([img1_request, img1_request] ! 1) \<and>
   fst (run_session Amat_data_collection (pulling_device 5) (new_session False no_files)
          [img1_request, img1_request]) ! 0 \<and>
   \<not> fst (run_session Amat_data_collection (pulling_device 5) (new_session False no_files)
          [img1_request, img1_request]) ! 1"
proof -
  have a: "(0::nat) < 1" by simp
  have b: "1 < length [img1_request, img1_request]" by simp
  have c: "req_path ([img1_request, img1_request] ! 0) = req_path ([img1_request, img1_request] ! 1)"
    by simp
  have d: "fst (run_session Amat_data_collection (pulling_device 5) (new_session False no_files)
          [img1_request, img1_request]) ! 0"
    by (simp add: img1_request_def pulled_img1 split_beta)
  from conjI [OF a conjI [OF b conjI [OF c conjI [OF d
    extracted_once_per_session [OF a b c d]]]]] show ?thesis .
qed

subsection \<open>C10: two device paths with one local path\<close>



subsection \<open>C7: a file above the size limit\<close>





subsection \<open>C1: exceptions\<close>

text \<open>Where an exception that reaches the handler of the call itself comes from.\<close>

lemma try_body_fault:
  assumes "try_body f w s r b c fl = (Inl e, s1)"
  shows "exists_nonempty (disk s) (local_path (md5 w) r b fl) = Inl e \<and> s1 = s \<or>
         mkdir_raises w (parent (local_path (md5 w) r b fl)) = Some e \<and> e \<noteq> OSError \<and> s1 = s \<or>
         pull_and_verify f w s r (local_path (md5 w) r b fl) c (basename r) = (Inl e, s1)"
  using assms
  by (subst (asm) try_body.simps)
     (auto simp: Let_def split_beta split: if_splits sum.splits bool.splits option.splits)





text \<open>The tenth exception of a session is counted and no longer logged.\<close>

lemma tenth_fault_not_logged:
  assumes "try_body f w s remote_path local_base_dir category flatten = (Inl e, s1)"
    and "extraction_errors (stats s1) = 9"
  shows "log_entries (snd (extract_file_production f w s remote_path local_base_dir category flatten))
      = log_entries s1"
  using assms
  by (simp add: extract_file_production.simps on_exception_def Let_def write_log_def)

end
